theory Spec2Isabelle
  imports Main
begin

section \<open>Strings as the wizard uses them\<close>

text \<open>
  JavaScript strings are modelled as \<open>string\<close>, one \<open>char\<close> per code unit in the range
  U+0000..U+00FF. \<open>toLowerCase\<close> maps the ASCII capitals and the Latin-1 capitals to
  their small letters and leaves every other code unit alone.
\<close>

definition toLower_char :: "char \<Rightarrow> char" where
  "toLower_char c =
     (let n = (of_char c :: nat)
      in if (65 \<le> n \<and> n \<le> 90) \<or> (192 \<le> n \<and> n \<le> 214) \<or> (216 \<le> n \<and> n \<le> 222)
         then char_of (n + 32) else c)"

definition toLowerCase :: "string \<Rightarrow> string" where
  "toLowerCase s = map toLower_char s"

text \<open>
  \<open>str.match(/\.[^.]+$/)?.[0]\<close>: the engine tries every start position from the left; at
  a position it needs a dot, then at least one character that is not a dot, then the end
  of the input. \<open>None\<close> is \<open>undefined\<close>.
\<close>

fun match_ext :: "string \<Rightarrow> string option" where
  "match_ext [] = None"
| "match_ext (c # cs) =
     (if c = CHR ''.'' \<and> cs \<noteq> [] \<and> CHR ''.'' \<notin> set cs then Some (c # cs) else match_ext cs)"

text \<open>\<open>password.trim()\<close> used as a condition: true when a character other than white space exists.\<close>

definition is_js_space :: "char \<Rightarrow> bool" where
  "is_js_space c = ((of_char c :: nat) \<in> {9, 10, 11, 12, 13, 32, 160})"

definition trim_truthy :: "string \<Rightarrow> bool" where
  "trim_truthy s = list_ex (\<lambda>c. \<not> is_js_space c) s"

text \<open>\<open>a || b\<close> where \<open>a\<close> is a string or \<open>undefined\<close>: the empty string is falsy.\<close>

definition js_or :: "string option \<Rightarrow> string \<Rightarrow> string" where
  "js_or a b = (case a of None \<Rightarrow> b | Some x \<Rightarrow> if x = [] then b else x)"

section \<open>Data exchanged with the backend\<close>

record jsfile =
  file_name :: string
  file_size :: nat

record suggested_range =
  range_label :: string
  range_start :: string
  range_end :: string

record date_range =
  min_date :: string
  max_date :: string
  suggested_ranges :: "suggested_range list"

record ambiguous_item =
  index :: nat
  description :: string
  confidence :: string
  suggested_category :: string
  transaction_count :: nat

record import_result =
  imported :: int
  total :: int
  message :: string

text \<open>The three shapes of \<open>data.status\<close> that \<open>handleUpload\<close> tells apart.\<close>

datatype upload_data =
  Status_password_required
  | Status_extracted string string date_range "string list"
  | Status_other string

record range_data =
  needs_clarification :: bool
  ambiguous_items :: "ambiguous_item list"

text \<open>
  A rejected request: \<open>err.response?.data?.message\<close> and \<open>err.response?.data?.error\<close>,
  each \<open>None\<close> when the chain yields \<open>undefined\<close>.
\<close>

record api_error =
  err_message :: "string option"
  err_error :: "string option"

datatype 'a outcome = Resolved 'a | Rejected api_error

definition errorMessage :: "api_error \<Rightarrow> string \<Rightarrow> string" where
  "errorMessage err fallback = js_or (err_message err) (js_or (err_error err) fallback)"

section \<open>The API client\<close>

datatype form_value = FileVal jsfile | StrVal string

type_synonym form_data = "(string \<times> form_value) list"

datatype body =
  FormBody form_data
  | SelectBody "string option" string string
  | ImportBody "string option" "nat \<rightharpoonup> string"

record request =
  url :: string
  body :: body

text \<open>\<open>FormData.getAll(key)\<close>.\<close>

definition getAll :: "string \<Rightarrow> form_data \<Rightarrow> form_value list" where
  "getAll k fd = map snd (filter (\<lambda>p. fst p = k) fd)"

text \<open>
  \<open>uploadStatement(file, password = null, clearPrevious = true)\<close>. The password is
  \<open>None\<close> for \<open>null\<close> or an omitted argument; \<open>clearPrevious\<close> is \<open>None\<close> when omitted, and
  then the default applies.
\<close>

definition uploadStatement :: "jsfile \<Rightarrow> string option \<Rightarrow> bool option \<Rightarrow> request" where
  "uploadStatement f password clearPrevious =
     (let cp = (case clearPrevious of None \<Rightarrow> True | Some b \<Rightarrow> b);
          formData = [(''file'', FileVal f),
                      (''clear_previous'', StrVal (if cp then ''true'' else ''false''))];
          formData' = (case password of
                         None \<Rightarrow> formData
                       | Some p \<Rightarrow> if p = [] then formData else formData @ [(''password'', StrVal p)])
      in \<lparr>url = ''/api/upload-statement'', body = FormBody formData'\<rparr>)"

definition selectDateRange :: "string option \<Rightarrow> string \<Rightarrow> string \<Rightarrow> request" where
  "selectDateRange sid startDate endDate =
     \<lparr>url = ''/api/select-date-range'', body = SelectBody sid startDate endDate\<rparr>"

definition importTransactions :: "string option \<Rightarrow> (nat \<rightharpoonup> string) \<Rightarrow> request" where
  "importTransactions sid clar =
     \<lparr>url = ''/api/import-transactions'', body = ImportBody sid clar\<rparr>"

definition form_of :: "request \<Rightarrow> form_data" where
  "form_of r = (case body r of FormBody fd \<Rightarrow> fd | SelectBody _ _ _ \<Rightarrow> [] | ImportBody _ _ \<Rightarrow> [])"

section \<open>The upload wizard\<close>

datatype phase = PhUpload | PhPassword | PhDateRange | PhClarify

datatype callback = Callback string

text \<open>What a handler does besides writing the component's state.\<close>

datatype effect =
  Post request
  | ResetFileInput
  | SetTimeout callback nat

record wizard =
  uploadPhase :: phase
  file_sel :: "jsfile option"
  fileType :: "string option"
  uploading :: bool
  error :: string
  result :: "import_result option"
  sessionId :: "string option"
  dateRange :: "date_range option"
  preview :: "string list"
  showPasswordDialog :: bool
  passwordError :: string
  showDateRangePicker :: bool
  showClarificationDialog :: bool
  ambiguousItems :: "ambiguous_item list"
  clarifications :: "nat \<rightharpoonup> string"
  processingClarifications :: bool
  clearPrevious :: bool

definition initial :: wizard where
  "initial =
     \<lparr>uploadPhase = PhUpload, file_sel = None, fileType = None, uploading = False, error = [],
      result = None, sessionId = None, dateRange = None, preview = [],
      showPasswordDialog = False, passwordError = [], showDateRangePicker = False,
      showClarificationDialog = False, ambiguousItems = [], clarifications = Map.empty,
      processingClarifications = False, clearPrevious = True\<rparr>"

definition allowedExtensions :: "string list" where
  "allowedExtensions = [''.csv'', ''.pdf'', ''.xlsx'', ''.xls'']"

text \<open>\<open>allowedExtensions.includes(fileExt)\<close>; \<open>undefined\<close> is in no list of strings.\<close>

definition includes_ext :: "string list \<Rightarrow> string option \<Rightarrow> bool" where
  "includes_ext xs e = (case e of None \<Rightarrow> False | Some x \<Rightarrow> x \<in> set xs)"

definition fileExt_of :: "jsfile option \<Rightarrow> string option" where
  "fileExt_of selectedFile =
     (case selectedFile of None \<Rightarrow> None | Some f \<Rightarrow> match_ext (toLowerCase (file_name f)))"

definition handleFileChange :: "jsfile option \<Rightarrow> wizard \<Rightarrow> wizard \<times> effect list" where
  "handleFileChange selectedFile s =
     (if selectedFile \<noteq> None \<and> includes_ext allowedExtensions (fileExt_of selectedFile)
      then (s\<lparr>file_sel := selectedFile, error := [], result := None, uploadPhase := PhUpload,
              sessionId := None, dateRange := None, preview := [],
              showPasswordDialog := False, showDateRangePicker := False,
              showClarificationDialog := False, ambiguousItems := [],
              clarifications := Map.empty\<rparr>, [])
      else (s\<lparr>error := ''Please select a valid file (CSV, PDF, or Excel)'', file_sel := None\<rparr>, []))"

text \<open>
  \<open>handleUpload\<close> up to its \<open>await\<close>: the guard on the file, the flags, and the request
  handed to the API client.
\<close>

definition handleUpload_begin :: "string option \<Rightarrow> wizard \<Rightarrow> wizard \<times> effect list" where
  "handleUpload_begin password s =
     (case file_sel s of
        None \<Rightarrow> (s\<lparr>error := ''Please select a file first''\<rparr>, [])
      | Some f \<Rightarrow> (s\<lparr>uploading := True, error := [], passwordError := []\<rparr>,
                   [Post (uploadStatement f password (Some (clearPrevious s)))]))"

text \<open>\<open>handleUpload\<close> from the answer on, with the \<open>finally\<close> block applied on every path.\<close>

definition handleUpload_resume :: "upload_data outcome \<Rightarrow> wizard \<Rightarrow> wizard" where
  "handleUpload_resume r s =
     (case r of
        Resolved data \<Rightarrow>
          (case data of
             Status_password_required \<Rightarrow> s\<lparr>showPasswordDialog := True, uploading := False\<rparr>
           | Status_extracted sid ft dr pv \<Rightarrow>
               s\<lparr>sessionId := Some sid, fileType := Some ft, dateRange := Some dr,
                  preview := pv, uploadPhase := PhDateRange, showPasswordDialog := False,
                  showDateRangePicker := True, uploading := False\<rparr>
           | Status_other _ \<Rightarrow> s\<lparr>uploading := False\<rparr>)
      | Rejected err \<Rightarrow> s\<lparr>error := errorMessage err ''Failed to upload file'', uploading := False\<rparr>)"

definition handleUpload :: "string option \<Rightarrow> upload_data outcome \<Rightarrow> wizard \<Rightarrow> wizard \<times> effect list" where
  "handleUpload password r s =
     (let (s1, fx) = handleUpload_begin password s
      in if fx = [] then (s1, fx) else (handleUpload_resume r s1, fx))"

text \<open>
  What \<open>PasswordDialog\<close> renders in its error box: the \<open>error\<close> prop it is given, which is
  \<open>passwordError\<close>, and only while the dialog is open and the text is not empty.
\<close>

definition passwordDialog_error :: "wizard \<Rightarrow> string option" where
  "passwordDialog_error s =
     (if showPasswordDialog s \<and> passwordError s \<noteq> [] then Some (passwordError s) else None)"

text \<open>The page's own error banner, rendered under the upload card when \<open>error\<close> is not empty.\<close>

definition page_error :: "wizard \<Rightarrow> string option" where
  "page_error s = (if error s \<noteq> [] then Some (error s) else None)"

definition handlePasswordSubmit :: "string \<Rightarrow> upload_data outcome \<Rightarrow> wizard \<Rightarrow> wizard \<times> effect list" where
  "handlePasswordSubmit password r s = handleUpload (Some password) r s"

definition handlePasswordCancel :: "wizard \<Rightarrow> wizard \<times> effect list" where
  "handlePasswordCancel s = (s\<lparr>showPasswordDialog := False, file_sel := None\<rparr>, [ResetFileInput])"

text \<open>
  The props of \<open>UploadView\<close>: \<open>onUploadComplete\<close>, \<open>None\<close> when the host passes none.
  \<open>Dashboard\<close> renders \<open><UploadView />\<close> with no props.
\<close>

record props =
  onUploadComplete :: "callback option"

definition dashboard_props :: props where
  "dashboard_props = \<lparr>onUploadComplete = None\<rparr>"

text \<open>\<open>handleImport\<close>, split at its \<open>await\<close> like \<open>handleUpload\<close>.\<close>

definition handleImport_begin :: "(nat \<rightharpoonup> string) \<Rightarrow> wizard \<Rightarrow> wizard \<times> effect list" where
  "handleImport_begin clarificationsData s =
     (s\<lparr>processingClarifications := True, error := []\<rparr>,
      [Post (importTransactions (sessionId s) clarificationsData)])"

definition handleImport_resume :: "props \<Rightarrow> import_result outcome \<Rightarrow> wizard \<Rightarrow> wizard \<times> effect list" where
  "handleImport_resume pr r s =
     (case r of
        Resolved data \<Rightarrow>
          (s\<lparr>result := Some data, showClarificationDialog := False, ambiguousItems := [],
              clarifications := Map.empty, sessionId := None, file_sel := None,
              uploadPhase := PhUpload, processingClarifications := False\<rparr>,
           ResetFileInput #
             (case onUploadComplete pr of
                None \<Rightarrow> []
              | Some cb \<Rightarrow> if imported data > 0 then [SetTimeout cb 2000] else []))
      | Rejected err \<Rightarrow>
          (s\<lparr>error := errorMessage err ''Failed to import transactions'',
              processingClarifications := False\<rparr>, []))"

definition handleImport :: "props \<Rightarrow> (nat \<rightharpoonup> string) \<Rightarrow> import_result outcome \<Rightarrow> wizard \<Rightarrow> wizard \<times> effect list" where
  "handleImport pr clarificationsData r s =
     (let (s1, fx1) = handleImport_begin clarificationsData s;
          (s2, fx2) = handleImport_resume pr r s1
      in (s2, fx1 @ fx2))"

text \<open>
  The \<open>forEach\<close> that fills \<open>initialClarifications\<close>: one assignment per item, in order, so
  a later item with the same index overwrites an earlier one.
\<close>

definition initialClarifications :: "ambiguous_item list \<Rightarrow> (nat \<rightharpoonup> string)" where
  "initialClarifications items =
     fold (\<lambda>item m. m(index item \<mapsto> suggested_category item)) items Map.empty"

definition handleDateRangeSelect_begin :: "string \<Rightarrow> string \<Rightarrow> wizard \<Rightarrow> wizard \<times> effect list" where
  "handleDateRangeSelect_begin startDate endDate s =
     (s\<lparr>uploading := True, error := []\<rparr>, [Post (selectDateRange (sessionId s) startDate endDate)])"

text \<open>
  \<open>handleDateRangeSelect\<close> from the answer on. \<open>ir\<close> is the answer to the import request
  that the straight-through branch sends; the session id that request carries is the one
  of the render in which the handler was started, which \<open>s\<close> still holds.
\<close>

definition handleDateRangeSelect_resume ::
  "props \<Rightarrow> range_data outcome \<Rightarrow> import_result outcome \<Rightarrow> wizard \<Rightarrow> wizard \<times> effect list" where
  "handleDateRangeSelect_resume pr r ir s =
     (case r of
        Resolved data \<Rightarrow>
          (if needs_clarification data
           then (s\<lparr>ambiguousItems := ambiguous_items data,
                    clarifications := initialClarifications (ambiguous_items data),
                    uploadPhase := PhClarify, showDateRangePicker := False,
                    showClarificationDialog := True, uploading := False\<rparr>, [])
           else (let (s1, fx) = handleImport pr Map.empty ir s in (s1\<lparr>uploading := False\<rparr>, fx)))
      | Rejected err \<Rightarrow>
          (s\<lparr>error := errorMessage err ''Failed to filter date range'', uploading := False\<rparr>, []))"

definition handleDateRangeSelect ::
  "props \<Rightarrow> string \<Rightarrow> string \<Rightarrow> range_data outcome \<Rightarrow> import_result outcome \<Rightarrow> wizard
     \<Rightarrow> wizard \<times> effect list" where
  "handleDateRangeSelect pr startDate endDate r ir s =
     (let (s1, fx1) = handleDateRangeSelect_begin startDate endDate s;
          (s2, fx2) = handleDateRangeSelect_resume pr r ir s1
      in (s2, fx1 @ fx2))"

definition handleDateRangeCancel :: "wizard \<Rightarrow> wizard \<times> effect list" where
  "handleDateRangeCancel s =
     (s\<lparr>showDateRangePicker := False, file_sel := None, sessionId := None, dateRange := None,
         uploadPhase := PhUpload\<rparr>, [ResetFileInput])"

definition handleClarificationChange :: "nat \<Rightarrow> string \<Rightarrow> wizard \<Rightarrow> wizard \<times> effect list" where
  "handleClarificationChange i category s = (s\<lparr>clarifications := (clarifications s)(i \<mapsto> category)\<rparr>, [])"

definition handleSubmitClarifications :: "props \<Rightarrow> import_result outcome \<Rightarrow> wizard \<Rightarrow> wizard \<times> effect list" where
  "handleSubmitClarifications pr r s = handleImport pr (clarifications s) r s"

definition handleCancelClarification :: "wizard \<Rightarrow> wizard \<times> effect list" where
  "handleCancelClarification s =
     (s\<lparr>showClarificationDialog := False, ambiguousItems := [], clarifications := Map.empty,
         sessionId := None, file_sel := None, uploadPhase := PhUpload\<rparr>, [ResetFileInput])"

text \<open>The requests among the effects of a handler.\<close>

definition requests :: "effect list \<Rightarrow> request list" where
  "requests fx = concat (map (\<lambda>e. case e of Post r \<Rightarrow> [r] | ResetFileInput \<Rightarrow> [] | SetTimeout _ _ \<Rightarrow> []) fx)"

definition timers :: "effect list \<Rightarrow> (callback \<times> nat) list" where
  "timers fx = concat (map (\<lambda>e. case e of Post _ \<Rightarrow> [] | ResetFileInput \<Rightarrow> [] | SetTimeout cb d \<Rightarrow> [(cb, d)]) fx)"


section \<open>File names\<close>

text \<open>Whether the string \<open>s\<close> ends with \<open>e\<close>.\<close>

definition ends_with :: "string \<Rightarrow> string \<Rightarrow> bool" where
  "ends_with e s = (length e \<le> length s \<and> drop (length s - length e) s = e)"

text \<open>
  The specification's wording of the test, to be compared with \<open>handleFileChange\<close>: the file
  name, compared without regard to case, ends with one of the accepted extensions. Each
  accepted extension is a dot followed by letters, so a name ends with it exactly when the
  part of the name from its last dot on is that extension.
\<close>

definition spec_allowed_extension :: "string \<Rightarrow> bool" where
  "spec_allowed_extension name = list_ex (\<lambda>e. ends_with e (toLowerCase name)) allowedExtensions"

section \<open>What the wizard renders\<close>

text \<open>The note \<open>Redirecting to Expenses view...\<close>, rendered when \<open>result.imported > 0\<close>.\<close>

definition redirect_notice :: "wizard \<Rightarrow> bool" where
  "redirect_notice s = (case result s of None \<Rightarrow> False | Some r \<Rightarrow> imported r > 0)"

text \<open>The upload button: rendered for \<open>file && uploadPhase === 'upload'\<close>, disabled by \<open>uploading\<close>.\<close>

definition upload_button_rendered :: "wizard \<Rightarrow> bool" where
  "upload_button_rendered s = (file_sel s \<noteq> None \<and> uploadPhase s = PhUpload)"

definition upload_button_disabled :: "wizard \<Rightarrow> bool" where
  "upload_button_disabled s = uploading s"

text \<open>
  \<open>PasswordDialog\<close>. \<open>UploadView\<close> passes \<open>isOpen\<close>, \<open>onSubmit\<close>, \<open>onCancel\<close>, \<open>error\<close> and
  \<open>loading = uploading\<close>; the component's parameter list is
  \<open>{ isOpen, onSubmit, onCancel, error }\<close>, and its Unlock button has
  \<open>disabled = !password.trim()\<close>. The first argument below is the \<open>loading\<close> prop that is
  passed, the second the text typed into the dialog.
\<close>

definition unlock_disabled :: "bool \<Rightarrow> string \<Rightarrow> bool" where
  "unlock_disabled loading password = (\<not> trim_truthy password)"

text \<open>The dialog's own \<open>handleSubmit\<close>: it calls \<open>onSubmit(password)\<close> for a non-blank password.\<close>

definition passwordDialog_handleSubmit ::
  "string \<Rightarrow> upload_data outcome \<Rightarrow> wizard \<Rightarrow> wizard \<times> effect list" where
  "passwordDialog_handleSubmit password r s =
     (if trim_truthy password then handlePasswordSubmit password r s else (s, []))"

text \<open>\<open>DateRangePicker\<close>, with its local state; rendered for \<open>showDateRangePicker && dateRange\<close>.\<close>

record picker =
  selectedRangeIndex :: nat
  customMode :: bool
  customStart :: string
  customEnd :: string

definition picker_rendered :: "wizard \<Rightarrow> bool" where
  "picker_rendered s = (showDateRangePicker s \<and> dateRange s \<noteq> None)"

definition apply_filter_disabled :: "bool \<Rightarrow> picker \<Rightarrow> bool" where
  "apply_filter_disabled loading p =
     (loading \<or> (customMode p \<and> (customStart p = [] \<or> customEnd p = [])))"

definition range_cancel_disabled :: "bool \<Rightarrow> bool" where
  "range_cancel_disabled loading = loading"

text \<open>
  The picker's \<open>handleSubmit\<close>: the bounds it hands to \<open>onSelect\<close>, or \<open>None\<close> when it calls
  nothing (a blank custom bound, or a selected index past the suggested ranges, where
  reading \<open>start_date\<close> of \<open>undefined\<close> throws).
\<close>

definition picker_handleSubmit :: "date_range \<Rightarrow> picker \<Rightarrow> (string \<times> string) option" where
  "picker_handleSubmit dr p =
     (if customMode p
      then (if customStart p \<noteq> [] \<and> customEnd p \<noteq> [] then Some (customStart p, customEnd p) else None)
      else (if selectedRangeIndex p < length (suggested_ranges dr)
            then Some (range_start (suggested_ranges dr ! selectedRangeIndex p),
                       range_end (suggested_ranges dr ! selectedRangeIndex p))
            else None))"

text \<open>The clarification dialog's Confirm and Import button.\<close>

definition confirm_import_disabled :: "wizard \<Rightarrow> bool" where
  "confirm_import_disabled s = processingClarifications s"

definition CATEGORIES :: "string list" where
  "CATEGORIES = [''Groceries'', ''Entertainment'', ''Rent'', ''Transport'', ''Bills'',
     ''Shopping'', ''Healthcare'', ''Income'', ''Other'', ''Uncategorized'']"

section \<open>The wizard as a transition system\<close>

text \<open>
  One event per control of the wizard. An event that sends a request carries the server's
  answer, and \<open>fire\<close> runs the handler to its end with that answer.
\<close>

datatype event =
  SelectFile "jsfile option"
  | ClickUpload "upload_data outcome"
  | SubmitPassword string "upload_data outcome"
  | CancelPassword
  | ApplyRange string string "range_data outcome" "import_result outcome"
  | CancelRange
  | ChangeClarification nat string
  | ConfirmImport "import_result outcome"
  | CancelClarify

text \<open>Whether the control behind an event is on the page and not disabled.\<close>

fun enabled :: "wizard \<Rightarrow> event \<Rightarrow> bool" where
  "enabled s (SelectFile f) = True"
| "enabled s (ClickUpload r) = (upload_button_rendered s \<and> \<not> upload_button_disabled s)"
| "enabled s (SubmitPassword pw r) = (showPasswordDialog s \<and> \<not> unlock_disabled (uploading s) pw)"
| "enabled s CancelPassword = showPasswordDialog s"
| "enabled s (ApplyRange a b r ir) = (picker_rendered s \<and> \<not> uploading s)"
| "enabled s CancelRange = (picker_rendered s \<and> \<not> range_cancel_disabled (uploading s))"
| "enabled s (ChangeClarification i c) =
     (showClarificationDialog s \<and> i \<in> set (map index (ambiguousItems s)) \<and> c \<in> set CATEGORIES)"
| "enabled s (ConfirmImport ir) = (showClarificationDialog s \<and> \<not> confirm_import_disabled s)"
| "enabled s CancelClarify = showClarificationDialog s"

fun fire :: "props \<Rightarrow> event \<Rightarrow> wizard \<Rightarrow> wizard \<times> effect list" where
  "fire pr (SelectFile f) s = handleFileChange f s"
| "fire pr (ClickUpload r) s = handleUpload None r s"
| "fire pr (SubmitPassword pw r) s = passwordDialog_handleSubmit pw r s"
| "fire pr CancelPassword s = handlePasswordCancel s"
| "fire pr (ApplyRange a b r ir) s = handleDateRangeSelect pr a b r ir s"
| "fire pr CancelRange s = handleDateRangeCancel s"
| "fire pr (ChangeClarification i c) s = handleClarificationChange i c s"
| "fire pr (ConfirmImport ir) s = handleSubmitClarifications pr ir s"
| "fire pr CancelClarify s = handleCancelClarification s"

text \<open>
  The handlers are asynchronous: a handler runs up to its \<open>await\<close>, the page stays live
  while the request is out, and the rest of the handler runs when the answer arrives. What
  is pending is the rest of \<open>handleUpload\<close>, the rest of \<open>handleDateRangeSelect\<close>, or the
  rest of \<open>handleImport\<close>; the flag of the last says whether the import was started by the
  date-range step, whose \<open>finally\<close> block then still has to run.
\<close>

datatype pending = AwaitUpload | AwaitRange | AwaitImport bool

datatype answer =
  UploadAnswer "upload_data outcome"
  | RangeAnswer "range_data outcome"
  | ImportAnswer "import_result outcome"

text \<open>Whether an answer to the date-range request sends the handler on into \<open>handleImport({})\<close>.\<close>

definition straight_through :: "range_data outcome \<Rightarrow> bool" where
  "straight_through r = (case r of Resolved d \<Rightarrow> \<not> needs_clarification d | Rejected _ \<Rightarrow> False)"

definition no_detail :: api_error where
  "no_detail = \<lparr>err_message = None, err_error = None\<rparr>"

text \<open>
  The part of a handler before its \<open>await\<close>: the state it leaves and what it leaves
  pending. The answers that an event carries are not read here.
\<close>

fun start :: "event \<Rightarrow> wizard \<Rightarrow> wizard \<times> pending list" where
  "start (SelectFile f) s = (fst (handleFileChange f s), [])"
| "start (ClickUpload r) s =
     (fst (handleUpload_begin None s), if file_sel s = None then [] else [AwaitUpload])"
| "start (SubmitPassword pw r) s =
     (if trim_truthy pw
      then (fst (handleUpload_begin (Some pw) s), if file_sel s = None then [] else [AwaitUpload])
      else (s, []))"
| "start CancelPassword s = (fst (handlePasswordCancel s), [])"
| "start (ApplyRange a b r ir) s = (fst (handleDateRangeSelect_begin a b s), [AwaitRange])"
| "start CancelRange s = (fst (handleDateRangeCancel s), [])"
| "start (ChangeClarification i c) s = (fst (handleClarificationChange i c s), [])"
| "start (ConfirmImport ir) s = (fst (handleImport_begin (clarifications s) s), [AwaitImport False])"
| "start CancelClarify s = (fst (handleCancelClarification s), [])"

text \<open>
  The part of a handler after its \<open>await\<close>, run on the state of the moment at which the
  answer arrives; \<open>None\<close> when the answer is not one to the pending request. On the
  branches other than the straight-through one the rest of \<open>handleDateRangeSelect\<close> reads
  no import answer.
\<close>

fun finish :: "props \<Rightarrow> pending \<Rightarrow> answer \<Rightarrow> wizard \<Rightarrow> (wizard \<times> pending list) option" where
  "finish pr AwaitUpload (UploadAnswer r) s = Some (handleUpload_resume r s, [])"
| "finish pr AwaitRange (RangeAnswer r) s =
     Some (if straight_through r
           then (fst (handleImport_begin Map.empty s), [AwaitImport True])
           else (fst (handleDateRangeSelect_resume pr r (Rejected no_detail) s), []))"
| "finish pr (AwaitImport nested) (ImportAnswer ir) s =
     Some (if nested then (fst (handleImport_resume pr ir s))\<lparr>uploading := False\<rparr>
           else fst (handleImport_resume pr ir s), [])"
| "finish pr p a s = None"

text \<open>
  The reachable configurations: a state of the wizard together with the requests that are
  out. A control that is on the page and not disabled may be used whatever is pending,
  and the pending requests are answered in any order.
\<close>

inductive reachable :: "props \<Rightarrow> wizard \<times> pending list \<Rightarrow> bool" for pr :: props where
  reachable_initial: "reachable pr (initial, [])"
| reachable_start:
    "reachable pr (s, ps) \<Longrightarrow> enabled s ev \<Longrightarrow> reachable pr (fst (start ev s), ps @ snd (start ev s))"
| reachable_finish:
    "reachable pr (s, ps) \<Longrightarrow> i < length ps \<Longrightarrow> finish pr (ps ! i) ans s = Some (s', new)
     \<Longrightarrow> reachable pr (s', take i ps @ drop (Suc i) ps @ new)"

text \<open>
  What the reachable states have in common: \<open>passwordError\<close> is empty, \<open>clearPrevious\<close> is
  true, and the phase is never \<open>password\<close>.
\<close>

definition wizard_inv :: "wizard \<Rightarrow> bool" where
  "wizard_inv s = (passwordError s = [] \<and> clearPrevious s \<and> uploadPhase s \<noteq> PhPassword)"

text \<open>The state with no dialog open, no file and no session, in the upload phase.\<close>

definition upload_state :: "wizard \<Rightarrow> bool" where
  "upload_state s =
     (uploadPhase s = PhUpload \<and> sessionId s = None \<and> file_sel s = None
      \<and> \<not> showPasswordDialog s \<and> \<not> showDateRangePicker s \<and> \<not> showClarificationDialog s)"

section \<open>Example runs\<close>

definition example_pdf :: jsfile where
  "example_pdf = \<lparr>file_name = ''statement.pdf'', file_size = 2048\<rparr>"

text \<open>The user has selected an encrypted PDF, pressed the upload button, and was asked for a password.\<close>

definition awaiting_password :: wizard where
  "awaiting_password =
     fst (fire dashboard_props (ClickUpload (Resolved Status_password_required))
       (fst (fire dashboard_props (SelectFile (Some example_pdf)) initial)))"

definition example_range :: date_range where
  "example_range = \<lparr>min_date = ''2024-01-01'', max_date = ''2024-01-31'', suggested_ranges = []\<rparr>"

text \<open>The user has selected a file and the server has extracted it into session \<open>s1\<close>.\<close>

definition choosing_range :: wizard where
  "choosing_range =
     fst (fire dashboard_props (ClickUpload (Resolved (Status_extracted ''s1'' ''pdf'' example_range [])))
       (fst (fire dashboard_props (SelectFile (Some example_pdf)) initial)))"

text \<open>Ambiguous items as a server lists them.\<close>

definition walmart_item :: ambiguous_item where
  "walmart_item = \<lparr>index = 0, description = ''WALMART'', confidence = ''low'',
     suggested_category = ''Groceries'', transaction_count = 2\<rparr>"

definition uber_item :: ambiguous_item where
  "uber_item = \<lparr>index = 1, description = ''UBER'', confidence = ''medium'',
     suggested_category = ''Transport'', transaction_count = 1\<rparr>"

definition wrong_password :: api_error where
  "wrong_password = \<lparr>err_message = Some ''Incorrect password'', err_error = None\<rparr>"

definition three_imported :: import_result where
  "three_imported = \<lparr>imported = 3, total = 3, message = ''Imported 3 transactions''\<rparr>"

text \<open>The server has listed two ambiguous items for the chosen range.\<close>

definition clarifying :: wizard where
  "clarifying =
     fst (fire dashboard_props
       (ApplyRange ''2024-01-01'' ''2024-01-31''
          (Resolved \<lparr>needs_clarification = True, ambiguous_items = [walmart_item, uber_item]\<rparr>)
          (Resolved three_imported))
       choosing_range)"

text \<open>
  Two uploads of the encrypted PDF overlap. With the password dialog open the user presses
  the upload button, which sends the file without a password, and then Unlock with the
  password \<open>1234\<close>. The second request is answered first, with the extracted session
  \<open>s1\<close>; then the first is answered with \<open>password_required\<close>.
\<close>

definition password_over_session :: wizard where
  "password_over_session =
     handleUpload_resume (Resolved Status_password_required)
       (handleUpload_resume (Resolved (Status_extracted ''s1'' ''pdf'' example_range []))
          (fst (handleUpload_begin (Some ''1234'')
             (fst (handleUpload_begin None awaiting_password)))))"

section \<open>The backend's session protocol\<close>

text \<open>
  Modelled from the spec: the data model of the session protocol (3), the backend that
  serves \<open>/api/select-date-range\<close> and \<open>/api/import-transactions\<close> being absent from the
  sources; the frontend only calls it. Dates are day numbers, amounts are signed amounts
  in minor units, and session ids are drawn from a counter, so that an id is never handed
  out twice.
\<close>

datatype confidence_tag = High | Medium | Low

datatype file_tag = Csv | Pdf | Excel

record extracted_transaction =
  tx_date :: int
  tx_description :: string
  tx_amount :: int
  tx_suggested :: string
  tx_confidence :: confidence_tag
  tx_reasoning :: string
  tx_alternatives :: "string list"

record ambiguous_group =
  ag_index :: nat
  ag_key :: string
  ag_representative :: extracted_transaction
  ag_count :: nat

record upload_session =
  us_transactions :: "extracted_transaction list"
  us_file_type :: file_tag
  us_created :: nat
  us_filtered :: "extracted_transaction list"
  us_ambiguous :: "ambiguous_group list"

record expense =
  ex_date :: int
  ex_amount :: int
  ex_description :: string
  ex_category :: string

record backend =
  sessions :: "nat \<rightharpoonup> upload_session"
  next_id :: nat
  expenses :: "expense list"
  merchant_rules :: "string \<rightharpoonup> string"

datatype backend_error = SessionNotFound | InvalidRange

record select_result =
  sr_needs_clarification :: bool
  sr_ambiguous_count :: nat
  sr_ambiguous_items :: "ambiguous_group list"

record commit_result =
  cr_imported :: nat
  cr_total :: nat
  cr_learned :: "(nat \<times> bool) list"

text \<open>
  Modelled from the spec: the Extractor's side effect (4.1), the backend handler being
  absent from the sources. On success it allocates a new UploadSession under a
  server-generated identifier and stores the extracted sequence there.
\<close>

definition create_session ::
  "file_tag \<Rightarrow> extracted_transaction list \<Rightarrow> nat \<Rightarrow> backend \<Rightarrow> nat \<times> backend" where
  "create_session tag rows now st =
     (next_id st,
      st\<lparr>sessions := (sessions st)(next_id st \<mapsto>
             \<lparr>us_transactions = rows, us_file_type = tag, us_created = now,
              us_filtered = [], us_ambiguous = []\<rparr>),
         next_id := Suc (next_id st)\<rparr>)"

text \<open>
  Modelled from the spec: the ambiguity grouping of the Range Filter (4.2), the backend
  handler being absent from the sources. A transaction is ambiguous when its confidence
  is medium or low; ambiguous transactions with the same normalized description are
  merged into one item that carries their number, the first one seen supplies the
  suggestion shown, and the items are numbered in the order in which they first appear.
  The normalization of descriptions is a parameter.
\<close>

definition add_to_groups ::
  "(string \<Rightarrow> string) \<Rightarrow> extracted_transaction \<Rightarrow> ambiguous_group list \<Rightarrow> ambiguous_group list" where
  "add_to_groups norm t gs =
     (if list_ex (\<lambda>g. ag_key g = norm (tx_description t)) gs
      then map (\<lambda>g. if ag_key g = norm (tx_description t) then g\<lparr>ag_count := Suc (ag_count g)\<rparr> else g) gs
      else gs @ [\<lparr>ag_index = length gs, ag_key = norm (tx_description t),
                   ag_representative = t, ag_count = 1\<rparr>])"

definition group_ambiguous :: "(string \<Rightarrow> string) \<Rightarrow> extracted_transaction list \<Rightarrow> ambiguous_group list" where
  "group_ambiguous norm txs =
     fold (add_to_groups norm) (filter (\<lambda>t. tx_confidence t = Medium \<or> tx_confidence t = Low) txs) []"

text \<open>
  Modelled from the spec: the Range Filter (4.2, 7), the backend handler being absent
  from the sources. An unknown session id fails with NotFound and a start after the end
  with InvalidRange; otherwise the extracted sequence of the session is filtered by date,
  inclusive on both bounds, and the filtered set and the ambiguous list are written to
  the session. The extracted sequence itself stays, so a later call may choose other
  bounds.
\<close>

definition select_date_range ::
  "(string \<Rightarrow> string) \<Rightarrow> backend \<Rightarrow> nat \<Rightarrow> int \<Rightarrow> int \<Rightarrow> backend_error + (select_result \<times> backend)" where
  "select_date_range norm st sid start_d end_d =
     (case sessions st sid of
        None \<Rightarrow> Inl SessionNotFound
      | Some se \<Rightarrow>
          if end_d < start_d then Inl InvalidRange
          else (let filtered = filter (\<lambda>t. start_d \<le> tx_date t \<and> tx_date t \<le> end_d) (us_transactions se);
                    amb = group_ambiguous norm filtered
                in Inr (\<lparr>sr_needs_clarification = (amb \<noteq> []), sr_ambiguous_count = length amb,
                          sr_ambiguous_items = amb\<rparr>,
                        st\<lparr>sessions := (sessions st)(sid \<mapsto> se\<lparr>us_filtered := filtered, us_ambiguous := amb\<rparr>)\<rparr>)))"

text \<open>
  Modelled from the spec: the category a transaction is stored with (4.3), the backend
  handler being absent from the sources: the user's choice for the ambiguous item the
  transaction belongs to where the mapping has one, the original suggestion otherwise.
\<close>

definition resolved_category ::
  "(string \<Rightarrow> string) \<Rightarrow> (nat \<rightharpoonup> string) \<Rightarrow> ambiguous_group list \<Rightarrow> extracted_transaction \<Rightarrow> string" where
  "resolved_category norm clar amb t =
     (if tx_confidence t = High then tx_suggested t
      else (case List.find (\<lambda>g. ag_key g = norm (tx_description t)) amb of
              None \<Rightarrow> tx_suggested t
            | Some g \<Rightarrow> (case clar (ag_index g) of None \<Rightarrow> tx_suggested t | Some c \<Rightarrow> c)))"

definition to_expense ::
  "(string \<Rightarrow> string) \<Rightarrow> (nat \<rightharpoonup> string) \<Rightarrow> ambiguous_group list \<Rightarrow> extracted_transaction \<Rightarrow> expense" where
  "to_expense norm clar amb t =
     \<lparr>ex_date = tx_date t, ex_amount = tx_amount t, ex_description = tx_description t,
      ex_category = resolved_category norm clar amb t\<rparr>"

text \<open>
  Modelled from the spec: the per-merchant rules learnt from the overrides (4.3), the
  backend handler being absent from the sources: one rule per ambiguous item that the
  mapping overrides, and one boolean per item that tells whether a rule was stored.
\<close>

definition learn_rules ::
  "(nat \<rightharpoonup> string) \<Rightarrow> ambiguous_group list \<Rightarrow> (string \<rightharpoonup> string) \<Rightarrow> (string \<rightharpoonup> string)" where
  "learn_rules clar amb rules =
     fold (\<lambda>g r. case clar (ag_index g) of None \<Rightarrow> r | Some c \<Rightarrow> r(ag_key g \<mapsto> c)) amb rules"

text \<open>
  Modelled from the spec: the Clarifier/Importer (4.3), the backend handler being absent
  from the sources. An unknown session id fails; otherwise every transaction of the
  filtered set is committed with its resolved category, except exact duplicates of
  expenses stored before, which count toward the total but not toward the imported
  rows; the rules are updated; and after the commit the session is deleted.
\<close>

definition import_transactions ::
  "(string \<Rightarrow> string) \<Rightarrow> backend \<Rightarrow> nat \<Rightarrow> (nat \<rightharpoonup> string) \<Rightarrow> backend_error + (commit_result \<times> backend)" where
  "import_transactions norm st sid clar =
     (case sessions st sid of
        None \<Rightarrow> Inl SessionNotFound
      | Some se \<Rightarrow>
          (let rows = map (to_expense norm clar (us_ambiguous se)) (us_filtered se);
               fresh = filter (\<lambda>e. e \<notin> set (expenses st)) rows
           in Inr (\<lparr>cr_imported = length fresh, cr_total = length rows,
                     cr_learned = map (\<lambda>g. (ag_index g, clar (ag_index g) \<noteq> None)) (us_ambiguous se)\<rparr>,
                   st\<lparr>sessions := (sessions st)(sid := None),
                      expenses := expenses st @ fresh,
                      merchant_rules := learn_rules clar (us_ambiguous se) (merchant_rules st)\<rparr>)))"

text \<open>The requests a backend serves, and the state each leaves behind; a failed request changes nothing.\<close>

datatype backend_op =
  OpUpload file_tag "extracted_transaction list" nat
  | OpSelect nat int int
  | OpImport nat "nat \<rightharpoonup> string"

fun run_op :: "(string \<Rightarrow> string) \<Rightarrow> backend_op \<Rightarrow> backend \<Rightarrow> backend" where
  "run_op norm (OpUpload tag rows now) st = snd (create_session tag rows now st)"
| "run_op norm (OpSelect sid a b) st =
     (case select_date_range norm st sid a b of Inl e \<Rightarrow> st | Inr (r, st') \<Rightarrow> st')"
| "run_op norm (OpImport sid clar) st =
     (case import_transactions norm st sid clar of Inl e \<Rightarrow> st | Inr (r, st') \<Rightarrow> st')"

text \<open>Every stored session was handed out by the counter.\<close>

definition store_ok :: "backend \<Rightarrow> bool" where
  "store_ok st = (\<forall>sid \<in> dom (sessions st). sid < next_id st)"

definition empty_backend :: backend where
  "empty_backend = \<lparr>sessions = Map.empty, next_id = 0, expenses = [], merchant_rules = Map.empty\<rparr>"

text \<open>The three rows of the end-to-end example of the specification's section 8, January 2024.\<close>

definition walmart_50 :: extracted_transaction where
  "walmart_50 = \<lparr>tx_date = 5, tx_description = ''Walmart Groceries'', tx_amount = 5000,
     tx_suggested = ''Shopping'', tx_confidence = Low, tx_reasoning = ''unsure'',
     tx_alternatives = [''Groceries'']\<rparr>"

definition walmart_30 :: extracted_transaction where
  "walmart_30 = \<lparr>tx_date = 10, tx_description = ''Walmart Groceries'', tx_amount = 3000,
     tx_suggested = ''Shopping'', tx_confidence = Low, tx_reasoning = ''unsure'',
     tx_alternatives = [''Groceries'']\<rparr>"

definition uber_12 :: extracted_transaction where
  "uber_12 = \<lparr>tx_date = 15, tx_description = ''Uber'', tx_amount = 1200,
     tx_suggested = ''Transport'', tx_confidence = High, tx_reasoning = ''ride'',
     tx_alternatives = []\<rparr>"

definition uploaded_backend :: backend where
  "uploaded_backend = snd (create_session Csv [walmart_50, walmart_30, uber_12] 0 empty_backend)"

definition selected_backend :: backend where
  "selected_backend = run_op (\<lambda>d. d) (OpSelect 0 1 31) uploaded_backend"

section \<open>Properties of the API client\<close>

text \<open>
  C10. When \<open>clearPrevious\<close> is omitted, \<open>uploadStatement\<close> sends \<open>clear_previous\<close> as
  \<open>true\<close>; the wizard's own setting starts as true and is what the wizard passes; and the
  \<open>password\<close> field is in the body exactly when a password that is neither null nor empty
  is given, and then carries that password.
\<close>

theorem uploadStatement_defaults:
  "getAll ''clear_previous'' (form_of (uploadStatement f pw None)) = [StrVal ''true'']
   \<and> clearPrevious initial = True
   \<and> snd (handleUpload_begin pw (initial\<lparr>file_sel := Some f\<rparr>))
       = [Post (uploadStatement f pw (Some True))]
   \<and> getAll ''clear_previous'' (form_of (uploadStatement f pw (Some True))) = [StrVal ''true'']
   \<and> ((getAll ''password'' (form_of (uploadStatement f pw cp)) \<noteq> [])
        = (\<exists>p. pw = Some p \<and> p \<noteq> []))
   \<and> getAll ''password'' (form_of (uploadStatement f (Some (c # cs)) cp)) = [StrVal (c # cs)]"
  by (cases pw; cases cp)
     (simp_all add: uploadStatement_def form_of_def getAll_def initial_def
        handleUpload_begin_def Let_def)

section \<open>File selection: properties\<close>

lemma ends_with_iff: "ends_with e s = (\<exists>base. s = base @ e)"
proof
  assume "ends_with e s"
  then have "s = take (length s - length e) s @ e"
    by (metis append_take_drop_id ends_with_def)
  then show "\<exists>base. s = base @ e" ..
next
  assume "\<exists>base. s = base @ e"
  then show "ends_with e s" by (auto simp: ends_with_def)
qed

lemma match_ext_suffix: "match_ext s = Some e \<Longrightarrow> \<exists>base. s = base @ e"
proof (induction s)
  case Nil
  then show ?case by simp
next
  case (Cons c cs)
  show ?case
  proof (cases "c = CHR ''.'' \<and> cs \<noteq> [] \<and> CHR ''.'' \<notin> set cs")
    case True
    with Cons.prems have "e = c # cs" by simp
    then show ?thesis by simp
  next
    case False
    with Cons.prems have "match_ext cs = Some e" by auto
    then obtain base where "cs = base @ e" using Cons.IH by blast
    then have "c # cs = (c # base) @ e" by simp
    then show ?thesis by blast
  qed
qed

lemma match_ext_last_dot:
  "rest \<noteq> [] \<Longrightarrow> CHR ''.'' \<notin> set rest \<Longrightarrow> match_ext (base @ CHR ''.'' # rest) = Some (CHR ''.'' # rest)"
  by (induction base) auto

lemma match_ext_shape:
  "match_ext s = Some e \<Longrightarrow> \<exists>rest. e = CHR ''.'' # rest \<and> rest \<noteq> [] \<and> CHR ''.'' \<notin> set rest"
  by (induction s) (auto split: if_splits)

lemma includes_ext_allowed:
  "includes_ext allowedExtensions (match_ext s) = list_ex (\<lambda>e. ends_with e s) allowedExtensions"
proof
  assume "includes_ext allowedExtensions (match_ext s)"
  then obtain e where e: "match_ext s = Some e" "e \<in> set allowedExtensions"
    by (auto simp: includes_ext_def split: option.splits)
  from match_ext_suffix [OF e(1)] have "ends_with e s" by (simp add: ends_with_iff)
  with e(2) show "list_ex (\<lambda>e. ends_with e s) allowedExtensions"
    by (auto simp: list_ex_iff)
next
  assume "list_ex (\<lambda>e. ends_with e s) allowedExtensions"
  then obtain e base where e: "e \<in> set allowedExtensions" "s = base @ e"
    by (auto simp: list_ex_iff ends_with_iff)
  from e(1) obtain rest where r: "e = CHR ''.'' # rest" "rest \<noteq> []" "CHR ''.'' \<notin> set rest"
    by (auto simp: allowedExtensions_def)
  have "match_ext s = Some e"
    unfolding e(2) r(1) by (rule match_ext_last_dot [OF r(2) r(3)])
  with e(1) show "includes_ext allowedExtensions (match_ext s)"
    by (simp add: includes_ext_def)
qed

lemma handleFileChange_accepts:
  "handleFileChange (Some f) s =
     (if spec_allowed_extension (file_name f)
      then (s\<lparr>file_sel := Some f, error := [], result := None, uploadPhase := PhUpload,
              sessionId := None, dateRange := None, preview := [],
              showPasswordDialog := False, showDateRangePicker := False,
              showClarificationDialog := False, ambiguousItems := [],
              clarifications := Map.empty\<rparr>, [])
      else (s\<lparr>error := ''Please select a valid file (CSV, PDF, or Excel)'', file_sel := None\<rparr>, []))"
  by (simp add: handleFileChange_def fileExt_of_def includes_ext_allowed spec_allowed_extension_def)

lemma capital_extension_accepted:
  "file_sel (fst (handleFileChange (Some \<lparr>file_name = ''Statement.PDF'', file_size = 1\<rparr>) s))
     = Some \<lparr>file_name = ''Statement.PDF'', file_size = 1\<rparr>"
proof -
  have "spec_allowed_extension ''Statement.PDF''" by code_simp
  then show ?thesis by (simp add: handleFileChange_accepts)
qed

text \<open>
  C7. A selected file whose name does not end, case-insensitively, with \<open>.csv\<close>, \<open>.pdf\<close>,
  \<open>.xlsx\<close> or \<open>.xls\<close> is rejected by \<open>handleFileChange\<close> without any request: the error
  message is set, no file is stored, and \<open>handleUpload\<close> on the resulting state (with or
  without a password, whatever the server would answer) sends no request either.
\<close>

theorem invalid_extension_rejected:
  assumes "\<not> spec_allowed_extension (file_name f)"
  shows "error (fst (handleFileChange (Some f) s)) = ''Please select a valid file (CSV, PDF, or Excel)''
         \<and> file_sel (fst (handleFileChange (Some f) s)) = None
         \<and> requests (snd (handleFileChange (Some f) s)) = []
         \<and> requests (snd (handleUpload pw r (fst (handleFileChange (Some f) s)))) = []
         \<and> requests (snd (handleUpload_begin pw (fst (handleFileChange (Some f) s)))) = []"
  using assms
  by (simp add: handleFileChange_accepts handleUpload_def handleUpload_begin_def requests_def)

theorem invalid_extension_rejected_witness:
  "\<not> spec_allowed_extension ''notes.TXT''
   \<and> error (fst (handleFileChange (Some \<lparr>file_name = ''notes.TXT'', file_size = 10\<rparr>) initial))
       = ''Please select a valid file (CSV, PDF, or Excel)''
   \<and> file_sel (fst (handleFileChange (Some \<lparr>file_name = ''notes.TXT'', file_size = 10\<rparr>) initial)) = None
   \<and> requests (snd (handleUpload None (Resolved Status_password_required)
        (fst (handleFileChange (Some \<lparr>file_name = ''notes.TXT'', file_size = 10\<rparr>) initial)))) = []"
proof -
  have "\<not> spec_allowed_extension ''notes.TXT''" by code_simp
  then have h: "\<not> spec_allowed_extension (file_name \<lparr>file_name = ''notes.TXT'', file_size = 10\<rparr>)"
    by simp
  from invalid_extension_rejected [OF h, of initial None "Resolved Status_password_required"] h
  show ?thesis by simp
qed

section \<open>The upload step\<close>



lemma handleUpload_with_file:
  "file_sel s = Some f \<Longrightarrow>
   handleUpload pw r s =
     (handleUpload_resume r (s\<lparr>uploading := True, error := [], passwordError := []\<rparr>),
      [Post (uploadStatement f pw (Some (clearPrevious s)))])"
  by (simp add: handleUpload_def handleUpload_begin_def)

lemma handleUpload_without_file:
  "file_sel s = None \<Longrightarrow> handleUpload pw r s = (s\<lparr>error := ''Please select a file first''\<rparr>, [])"
  by (simp add: handleUpload_def handleUpload_begin_def)



section \<open>Reachable states\<close>

lemma wizard_inv_start: "wizard_inv s \<Longrightarrow> wizard_inv (fst (start ev s))"
  by (cases ev)
     (auto simp: wizard_inv_def handleFileChange_def handleUpload_begin_def
        handlePasswordCancel_def handleDateRangeSelect_begin_def handleDateRangeCancel_def
        handleClarificationChange_def handleImport_begin_def handleCancelClarification_def
        split: option.splits)

lemma wizard_inv_finish:
  assumes "wizard_inv s" and "finish pr p ans s = Some (s', new)"
  shows "wizard_inv s'"
proof (cases p)
  case AwaitUpload
  with assms show ?thesis
    by (cases ans)
       (auto simp: wizard_inv_def handleUpload_resume_def split: outcome.splits upload_data.splits)
next
  case AwaitRange
  with assms show ?thesis
    by (cases ans)
       (auto simp: wizard_inv_def handleDateRangeSelect_resume_def handleImport_begin_def
          straight_through_def split: outcome.splits if_splits)
next
  case (AwaitImport nested)
  with assms show ?thesis
    by (cases ans)
       (auto simp: wizard_inv_def handleImport_resume_def split: outcome.splits if_splits)
qed

lemma reachable_inv: "reachable pr c \<Longrightarrow> wizard_inv (fst c)"
proof (induction rule: reachable.induct)
  case reachable_initial
  show ?case by (simp add: wizard_inv_def initial_def)
next
  case (reachable_start s ps ev)
  then show ?case by (simp add: wizard_inv_start)
next
  case (reachable_finish s ps i ans s' new)
  then show ?case by (auto intro: wizard_inv_finish)
qed

lemma reachable_finish_last:
  assumes "reachable pr (s, ps @ [p])" and "finish pr p ans s = Some (s', new)"
  shows "reachable pr (s', ps @ new)"
  using reachable_finish [OF assms(1), of "length ps" ans s' new] assms(2) by simp

text \<open>
  A handler that runs to its end before anything else happens is one run among the
  interleaved ones: its first part, then its answer, and for a straight-through import
  the answer to the import as well.
\<close>

lemma reachable_fire:
  assumes "reachable pr (s, ps)" and "enabled s ev"
  shows "reachable pr (fst (fire pr ev s), ps)"
proof -
  note st = reachable_start [OF assms]
  show ?thesis
  proof (cases ev)
    case (SelectFile f)
    with st show ?thesis by simp
  next
    case (ClickUpload r)
    show ?thesis
    proof (cases "file_sel s")
      case None
      with st ClickUpload show ?thesis
        by (simp add: handleUpload_without_file handleUpload_begin_def)
    next
      case (Some f)
      with st ClickUpload
      have "reachable pr (fst (handleUpload_begin None s), ps @ [AwaitUpload])" by simp
      from reachable_finish_last [OF this, of "UploadAnswer r"] Some ClickUpload
      show ?thesis by (simp add: handleUpload_with_file handleUpload_begin_def)
    qed
  next
    case (SubmitPassword pw r)
    with assms(2) have t: "trim_truthy pw" by (simp add: unlock_disabled_def)
    show ?thesis
    proof (cases "file_sel s")
      case None
      with st SubmitPassword t show ?thesis
        by (simp add: passwordDialog_handleSubmit_def handlePasswordSubmit_def
            handleUpload_without_file handleUpload_begin_def)
    next
      case (Some f)
      with st SubmitPassword t
      have "reachable pr (fst (handleUpload_begin (Some pw) s), ps @ [AwaitUpload])" by simp
      from reachable_finish_last [OF this, of "UploadAnswer r"] Some SubmitPassword t
      show ?thesis
        by (simp add: passwordDialog_handleSubmit_def handlePasswordSubmit_def
            handleUpload_with_file handleUpload_begin_def)
    qed
  next
    case CancelPassword
    with st show ?thesis by simp
  next
    case (ApplyRange a b r ir)
    with st have r1: "reachable pr (fst (handleDateRangeSelect_begin a b s), ps @ [AwaitRange])"
      by simp
    let ?s1 = "fst (handleDateRangeSelect_begin a b s)"
    show ?thesis
    proof (cases "straight_through r")
      case True
      from reachable_finish_last [OF r1, of "RangeAnswer r"] True
      have "reachable pr (fst (handleImport_begin Map.empty ?s1), ps @ [AwaitImport True])"
        by simp
      from reachable_finish_last [OF this, of "ImportAnswer ir"]
      have "reachable pr ((fst (handleImport_resume pr ir (fst (handleImport_begin Map.empty ?s1))))
              \<lparr>uploading := False\<rparr>, ps)"
        by simp
      moreover from True obtain d where "r = Resolved d" "\<not> needs_clarification d"
        by (auto simp: straight_through_def split: outcome.splits)
      ultimately show ?thesis
        using ApplyRange
        by (simp add: handleDateRangeSelect_def handleDateRangeSelect_resume_def
            handleImport_def case_prod_beta)
    next
      case False
      from reachable_finish_last [OF r1, of "RangeAnswer r"] False
      have "reachable pr (fst (handleDateRangeSelect_resume pr r (Rejected no_detail) ?s1), ps)"
        by simp
      moreover from False
      have "fst (handleDateRangeSelect_resume pr r (Rejected no_detail) ?s1)
            = fst (handleDateRangeSelect_resume pr r ir ?s1)"
        by (auto simp: straight_through_def handleDateRangeSelect_resume_def
            split: outcome.splits)
      ultimately show ?thesis
        using ApplyRange by (simp add: handleDateRangeSelect_def case_prod_beta)
    qed
  next
    case CancelRange
    with st show ?thesis by simp
  next
    case (ChangeClarification i c)
    with st show ?thesis by simp
  next
    case (ConfirmImport ir)
    with st
    have "reachable pr (fst (handleImport_begin (clarifications s) s), ps @ [AwaitImport False])"
      by simp
    from reachable_finish_last [OF this, of "ImportAnswer ir"] ConfirmImport
    show ?thesis
      by (simp add: handleSubmitClarifications_def handleImport_def case_prod_beta)
  next
    case CancelClarify
    with st show ?thesis by simp
  qed
qed

lemma reachable_awaiting_password: "reachable dashboard_props (awaiting_password, [])"
  unfolding awaiting_password_def
  by (intro reachable_fire reachable_initial)
     (simp_all add: handleFileChange_accepts spec_allowed_extension_def allowedExtensions_def
        ends_with_def toLowerCase_def toLower_char_def example_pdf_def
        upload_button_rendered_def upload_button_disabled_def initial_def)

lemma reachable_choosing_range: "reachable dashboard_props (choosing_range, [])"
  unfolding choosing_range_def
  by (intro reachable_fire reachable_initial)
     (simp_all add: handleFileChange_accepts spec_allowed_extension_def allowedExtensions_def
        ends_with_def toLowerCase_def toLower_char_def example_pdf_def
        upload_button_rendered_def upload_button_disabled_def initial_def)

lemma awaiting_password_eq:
  "awaiting_password = initial\<lparr>file_sel := Some example_pdf, showPasswordDialog := True\<rparr>"
  by (simp add: awaiting_password_def handleFileChange_accepts spec_allowed_extension_def
      allowedExtensions_def ends_with_def toLowerCase_def toLower_char_def example_pdf_def
      handleUpload_with_file handleUpload_resume_def initial_def)

lemma choosing_range_eq:
  "choosing_range = initial\<lparr>file_sel := Some example_pdf, sessionId := Some ''s1'',
     fileType := Some ''pdf'', dateRange := Some example_range, uploadPhase := PhDateRange,
     showDateRangePicker := True\<rparr>"
  by (simp add: choosing_range_def handleFileChange_accepts spec_allowed_extension_def
      allowedExtensions_def ends_with_def toLowerCase_def toLower_char_def example_pdf_def
      handleUpload_with_file handleUpload_resume_def initial_def)

lemma reachable_clarifying: "reachable dashboard_props (clarifying, [])"
  unfolding clarifying_def
  by (rule reachable_fire [OF reachable_choosing_range])
     (simp add: choosing_range_eq picker_rendered_def initial_def)

lemma password_over_session_eq:
  "password_over_session =
     initial\<lparr>file_sel := Some example_pdf, sessionId := Some ''s1'', fileType := Some ''pdf'',
       dateRange := Some example_range, uploadPhase := PhDateRange,
       showDateRangePicker := True, showPasswordDialog := True\<rparr>"
  by (simp add: password_over_session_def awaiting_password_eq handleUpload_begin_def
      handleUpload_resume_def initial_def)

text \<open>
  The overlapping uploads are a run of the wizard: the upload button is on the page and
  enabled while the dialog is open, Unlock is enabled while the first request is out, and
  the two answers arrive in the other order.
\<close>

lemma reachable_password_over_session: "reachable dashboard_props (password_over_session, [])"
proof -
  let ?s1 = "fst (handleUpload_begin None awaiting_password)"
  let ?s2 = "fst (handleUpload_begin (Some ''1234'') ?s1)"
  let ?s3 = "handleUpload_resume (Resolved (Status_extracted ''s1'' ''pdf'' example_range [])) ?s2"
  have e1: "enabled awaiting_password (ClickUpload (Resolved Status_password_required))"
    by (simp add: awaiting_password_eq initial_def upload_button_rendered_def
        upload_button_disabled_def)
  from reachable_start [OF reachable_awaiting_password e1]
  have r1: "reachable dashboard_props (?s1, [AwaitUpload])"
    by (simp add: awaiting_password_eq initial_def)
  have e2: "enabled ?s1 (SubmitPassword ''1234'' (Resolved Status_password_required))"
    by (simp add: awaiting_password_eq initial_def handleUpload_begin_def unlock_disabled_def
        trim_truthy_def is_js_space_def)
  from reachable_start [OF r1 e2]
  have r2: "reachable dashboard_props (?s2, [AwaitUpload, AwaitUpload])"
    by (simp add: awaiting_password_eq initial_def handleUpload_begin_def trim_truthy_def
        is_js_space_def)
  from reachable_finish [OF r2, of 1
      "UploadAnswer (Resolved (Status_extracted ''s1'' ''pdf'' example_range []))" ?s3 "[]"]
  have r3: "reachable dashboard_props (?s3, [AwaitUpload])" by simp
  from reachable_finish [OF r3, of 0 "UploadAnswer (Resolved Status_password_required)"
      "handleUpload_resume (Resolved Status_password_required) ?s3" "[]"]
  show ?thesis by (simp add: password_over_session_def)
qed

lemma reachable_clearPrevious:
  assumes "reachable pr (s, ps)" and "file_sel s = Some f"
  shows "getAll ''clear_previous'' (form_of (uploadStatement f pw (Some (clearPrevious s))))
           = [StrVal ''true'']"
proof -
  from assms(1) have "clearPrevious s" by (auto dest: reachable_inv simp: wizard_inv_def)
  then show ?thesis
    by (cases pw) (simp_all add: uploadStatement_def form_of_def getAll_def Let_def)
qed

text \<open>
  A straight-through import never closes the picker: the date range stays stored and the
  flag stays set, so the picker is still rendered when the import has succeeded.
\<close>

lemma picker_open_after_straight_through_import:
  assumes "picker_rendered s" and "\<not> needs_clarification d"
  shows "picker_rendered (fst (handleDateRangeSelect pr a b (Resolved d) (Resolved res) s))"
  using assms
  by (simp add: handleDateRangeSelect_def handleDateRangeSelect_begin_def
      handleDateRangeSelect_resume_def handleImport_def handleImport_begin_def
      handleImport_resume_def picker_rendered_def case_prod_beta)

section \<open>Cancelling\<close>

lemma handleDateRangeCancel_clears:
  "uploadPhase (fst (handleDateRangeCancel s)) = PhUpload
   \<and> sessionId (fst (handleDateRangeCancel s)) = None
   \<and> file_sel (fst (handleDateRangeCancel s)) = None
   \<and> \<not> showDateRangePicker (fst (handleDateRangeCancel s))
   \<and> requests (snd (handleDateRangeCancel s)) = []"
  by (simp add: handleDateRangeCancel_def requests_def)

lemma handleCancelClarification_clears:
  "uploadPhase (fst (handleCancelClarification s)) = PhUpload
   \<and> sessionId (fst (handleCancelClarification s)) = None
   \<and> file_sel (fst (handleCancelClarification s)) = None
   \<and> \<not> showClarificationDialog (fst (handleCancelClarification s))
   \<and> requests (snd (handleCancelClarification s)) = []"
  by (simp add: handleCancelClarification_def requests_def)

lemma handlePasswordCancel_keeps:
  "uploadPhase (fst (handlePasswordCancel s)) = uploadPhase s
   \<and> sessionId (fst (handlePasswordCancel s)) = sessionId s
   \<and> file_sel (fst (handlePasswordCancel s)) = None
   \<and> \<not> showPasswordDialog (fst (handlePasswordCancel s))
   \<and> requests (snd (handlePasswordCancel s)) = []"
  by (simp add: handlePasswordCancel_def requests_def)

text \<open>
  C4, evaluated where the code departs from it. After the two overlapping uploads the
  password dialog is open over the stored session \<open>s1\<close> in the date-range phase, and this
  is a reachable state. Cancel in the dialog clears the file and closes the dialog and
  sends no request, but the session id is still \<open>s1\<close> and the phase still \<open>date_range\<close>:
  the wizard is not back in the upload state. The cancel handlers of the date-range and
  the clarify step clear both in every state.
\<close>

theorem password_cancel_keeps_session:
  "reachable dashboard_props (password_over_session, [])
   \<and> showPasswordDialog password_over_session
   \<and> enabled password_over_session CancelPassword
   \<and> sessionId password_over_session = Some ''s1''
   \<and> file_sel (fst (fire dashboard_props CancelPassword password_over_session)) = None
   \<and> \<not> showPasswordDialog (fst (fire dashboard_props CancelPassword password_over_session))
   \<and> requests (snd (fire dashboard_props CancelPassword password_over_session)) = []
   \<and> sessionId (fst (fire dashboard_props CancelPassword password_over_session)) = Some ''s1''
   \<and> uploadPhase (fst (fire dashboard_props CancelPassword password_over_session)) = PhDateRange
   \<and> \<not> upload_state (fst (fire dashboard_props CancelPassword password_over_session))"
  using reachable_password_over_session
  by (simp add: password_over_session_eq handlePasswordCancel_def requests_def upload_state_def)

section \<open>The password dialog\<close>

lemma passwordError_never_set:
  "reachable pr (s, ps) \<Longrightarrow> passwordError s = [] \<and> passwordDialog_error s = None"
  by (drule reachable_inv) (simp add: wizard_inv_def passwordDialog_error_def)

lemma rejected_upload_error_placement:
  assumes "file_sel s = Some f"
  shows "passwordError (fst (handleUpload pw (Rejected err) s)) = []
         \<and> passwordDialog_error (fst (handleUpload pw (Rejected err) s)) = None
         \<and> showPasswordDialog (fst (handleUpload pw (Rejected err) s)) = showPasswordDialog s
         \<and> error (fst (handleUpload pw (Rejected err) s)) = errorMessage err ''Failed to upload file''"
  using assms
  by (simp add: handleUpload_with_file handleUpload_resume_def passwordDialog_error_def)

text \<open>
  C1, evaluated where the code departs from it. The password dialog is open for
  \<open>statement.pdf\<close>; the user submits the password \<open>1234\<close> and the request is rejected with
  the message \<open>Incorrect password\<close>. The dialog stays open, but the message goes to the page's
  error banner: \<open>passwordError\<close>, the only text the dialog renders, is still empty, so the
  dialog shows no error.
\<close>

theorem wrong_password_error_outside_dialog:
  "showPasswordDialog awaiting_password
   \<and> enabled awaiting_password (SubmitPassword ''1234'' (Rejected wrong_password))
   \<and> requests (snd (fire dashboard_props (SubmitPassword ''1234'' (Rejected wrong_password)) awaiting_password))
       = [uploadStatement example_pdf (Some ''1234'') (Some True)]
   \<and> showPasswordDialog (fst (fire dashboard_props (SubmitPassword ''1234'' (Rejected wrong_password)) awaiting_password))
   \<and> passwordError (fst (fire dashboard_props (SubmitPassword ''1234'' (Rejected wrong_password)) awaiting_password)) = []
   \<and> passwordDialog_error (fst (fire dashboard_props (SubmitPassword ''1234'' (Rejected wrong_password)) awaiting_password)) = None
   \<and> page_error (fst (fire dashboard_props (SubmitPassword ''1234'' (Rejected wrong_password)) awaiting_password))
       = Some ''Incorrect password''"
  by (simp add: awaiting_password_eq initial_def unlock_disabled_def trim_truthy_def
      is_js_space_def passwordDialog_handleSubmit_def handlePasswordSubmit_def
      handleUpload_with_file handleUpload_resume_def requests_def passwordDialog_error_def
      page_error_def wrong_password_def errorMessage_def js_or_def)

section \<open>Controls while a request is outstanding\<close>

lemma begin_sets_flag:
  "file_sel s \<noteq> None \<Longrightarrow> uploading (fst (handleUpload_begin pw s))"
  "uploading (fst (handleDateRangeSelect_begin a b s))"
  "processingClarifications (fst (handleImport_begin cl s))"
  by (auto simp: handleUpload_begin_def handleDateRangeSelect_begin_def handleImport_begin_def)

lemma flag_disables_upload_button: "uploading s \<Longrightarrow> \<not> enabled s (ClickUpload r)"
  by (simp add: upload_button_disabled_def)

lemma flag_disables_apply_filter:
  "uploading s \<Longrightarrow> apply_filter_disabled (uploading s) p \<and> \<not> enabled s (ApplyRange a b r ir)"
  by (simp add: apply_filter_disabled_def)

lemma flag_disables_confirm_import:
  "processingClarifications s \<Longrightarrow> \<not> enabled s (ConfirmImport ir)"
  by (simp add: confirm_import_disabled_def)

lemma unlock_ignores_loading: "unlock_disabled True pw = unlock_disabled False pw"
  by (simp add: unlock_disabled_def)

text \<open>
  C5, evaluated where the code departs from it. The password dialog is open, the user
  submits \<open>1234\<close>, and \<open>handleUpload\<close> has run up to its \<open>await\<close>: \<open>uploading\<close> is set and a
  request is out. The dialog is still open and its Unlock button is not disabled, so the
  event is enabled again, and a second run of \<open>handleUpload\<close> up to its \<open>await\<close> sends the
  same request a second time.
\<close>

theorem unlock_enabled_while_uploading:
  "uploading (fst (handleUpload_begin (Some ''1234'') awaiting_password))
   \<and> requests (snd (handleUpload_begin (Some ''1234'') awaiting_password))
       = [uploadStatement example_pdf (Some ''1234'') (Some True)]
   \<and> showPasswordDialog (fst (handleUpload_begin (Some ''1234'') awaiting_password))
   \<and> \<not> unlock_disabled (uploading (fst (handleUpload_begin (Some ''1234'') awaiting_password))) ''1234''
   \<and> enabled (fst (handleUpload_begin (Some ''1234'') awaiting_password))
        (SubmitPassword ''1234'' (Rejected wrong_password))
   \<and> requests (snd (handleUpload_begin (Some ''1234'')
         (fst (handleUpload_begin (Some ''1234'') awaiting_password))))
       = [uploadStatement example_pdf (Some ''1234'') (Some True)]"
  by (simp add: awaiting_password_eq initial_def handleUpload_begin_def requests_def
      unlock_disabled_def trim_truthy_def is_js_space_def)

section \<open>After the import\<close>

lemma handleImport_timers:
  "timers (snd (handleImport pr cl (Resolved d) s)) =
     (case onUploadComplete pr of
        None \<Rightarrow> []
      | Some cb \<Rightarrow> if imported d > 0 then [(cb, 2000)] else [])"
  by (simp add: handleImport_def handleImport_begin_def handleImport_resume_def timers_def
      split: option.splits)

lemma handleImport_rejected_timers: "timers (snd (handleImport pr cl (Rejected err) s)) = []"
  by (simp add: handleImport_def handleImport_begin_def handleImport_resume_def timers_def)

lemma auto_return_with_callback:
  "onUploadComplete pr = Some cb \<Longrightarrow>
   (timers (snd (handleImport pr cl (Resolved d) s)) = [(cb, 2000)]) = (imported d > 0)"
  by (simp add: handleImport_timers)

text \<open>
  C6, evaluated where the code departs from it. \<open>Dashboard\<close> renders the wizard without
  \<open>onUploadComplete\<close>. An import that reports three imported rows then schedules no timer at
  all, whether it was confirmed from the clarification dialog or sent straight through by
  the date-range step, while the page shows the note \<open>Redirecting to Expenses view...\<close>.
\<close>

theorem dashboard_import_schedules_no_return:
  "imported three_imported > 0
   \<and> timers (snd (handleImport dashboard_props cl (Resolved three_imported) s)) = []
   \<and> timers (snd (handleSubmitClarifications dashboard_props (Resolved three_imported) s)) = []
   \<and> timers (snd (handleDateRangeSelect dashboard_props a b
        (Resolved \<lparr>needs_clarification = False, ambiguous_items = []\<rparr>) (Resolved three_imported) s)) = []
   \<and> redirect_notice (fst (handleImport dashboard_props cl (Resolved three_imported) s))"
  by (simp add: handleImport_timers handleSubmitClarifications_def dashboard_props_def
      three_imported_def handleDateRangeSelect_def handleDateRangeSelect_begin_def
      handleDateRangeSelect_resume_def case_prod_beta timers_def redirect_notice_def
      handleImport_def handleImport_begin_def handleImport_resume_def)

section \<open>The date-range step\<close>

lemma initialClarifications_snoc:
  "initialClarifications (items @ [item])
     = (initialClarifications items)(index item \<mapsto> suggested_category item)"
  by (simp add: initialClarifications_def)

lemma initialClarifications_last:
  "initialClarifications items i
     = map_option suggested_category (List.find (\<lambda>item. index item = i) (rev items))"
proof (induction items rule: rev_induct)
  case Nil
  show ?case by (simp add: initialClarifications_def)
next
  case (snoc item items)
  then show ?case by (simp add: initialClarifications_snoc)
qed

lemma initialClarifications_distinct:
  assumes "distinct (map index items)" and "item \<in> set items"
  shows "initialClarifications items (index item) = Some (suggested_category item)"
  using assms
proof (induction items rule: rev_induct)
  case Nil
  then show ?case by simp
next
  case (snoc x xs)
  show ?case
  proof (cases "item = x")
    case True
    then show ?thesis by (simp add: initialClarifications_snoc)
  next
    case False
    with snoc.prems have mem: "item \<in> set xs" and d: "distinct (map index xs)"
      and "index x \<notin> index ` set xs"
      by auto
    then have "index item \<noteq> index x" by (metis image_eqI)
    with snoc.IH [OF d mem] show ?thesis by (simp add: initialClarifications_snoc)
  qed
qed

lemma handleDateRangeSelect_clarify:
  "needs_clarification d \<Longrightarrow>
   handleDateRangeSelect pr a b (Resolved d) ir s =
     (s\<lparr>error := [], ambiguousItems := ambiguous_items d,
         clarifications := initialClarifications (ambiguous_items d),
         uploadPhase := PhClarify, showDateRangePicker := False,
         showClarificationDialog := True, uploading := False\<rparr>,
      [Post (selectDateRange (sessionId s) a b)])"
  by (simp add: handleDateRangeSelect_def handleDateRangeSelect_begin_def
      handleDateRangeSelect_resume_def)

lemma handleDateRangeSelect_straight_through:
  "\<not> needs_clarification d \<Longrightarrow>
   requests (snd (handleDateRangeSelect pr a b (Resolved d) ir s)) =
     [selectDateRange (sessionId s) a b, importTransactions (sessionId s) Map.empty]"
  by (cases ir; cases "onUploadComplete pr")
     (simp_all add: handleDateRangeSelect_def handleDateRangeSelect_begin_def
        handleDateRangeSelect_resume_def handleImport_def handleImport_begin_def
        handleImport_resume_def requests_def case_prod_beta)

lemma dom_initialClarifications: "dom (initialClarifications items) = index ` set items"
proof (induction items rule: rev_induct)
  case Nil
  show ?case by (simp add: initialClarifications_def)
next
  case (snoc item items)
  have "dom (initialClarifications (items @ [item]))
        = insert (index item) (dom (initialClarifications items))"
    unfolding initialClarifications_snoc by simp
  with snoc show ?case by simp
qed

text \<open>
  C2. For an answer with \<open>needs_clarification\<close> true whose ambiguous items carry pairwise
  distinct indices (the index is the key of an item) the wizard moves to the clarify phase
  with the clarification dialog open and the picker closed, stores the ambiguous items,
  sends nothing beyond the date-range request, and initialises the mapping so that its
  keys are the indices of the items and every item's index maps to that item's suggested
  category. For an answer with \<open>needs_clarification\<close> false the wizard sends the import
  request right after the date-range request, for the same session and with the empty
  mapping.
\<close>

theorem handleDateRangeSelect_branches:
  "(needs_clarification d \<and> distinct (map index (ambiguous_items d)) \<longrightarrow>
      uploadPhase (fst (handleDateRangeSelect pr a b (Resolved d) ir s)) = PhClarify
      \<and> showClarificationDialog (fst (handleDateRangeSelect pr a b (Resolved d) ir s))
      \<and> \<not> showDateRangePicker (fst (handleDateRangeSelect pr a b (Resolved d) ir s))
      \<and> ambiguousItems (fst (handleDateRangeSelect pr a b (Resolved d) ir s)) = ambiguous_items d
      \<and> requests (snd (handleDateRangeSelect pr a b (Resolved d) ir s))
          = [selectDateRange (sessionId s) a b]
      \<and> dom (clarifications (fst (handleDateRangeSelect pr a b (Resolved d) ir s)))
          = index ` set (ambiguous_items d)
      \<and> (\<forall>item \<in> set (ambiguous_items d).
            clarifications (fst (handleDateRangeSelect pr a b (Resolved d) ir s)) (index item)
              = Some (suggested_category item)))
   \<and> (\<not> needs_clarification d \<longrightarrow>
      requests (snd (handleDateRangeSelect pr a b (Resolved d) ir s))
        = [selectDateRange (sessionId s) a b, importTransactions (sessionId s) Map.empty])"
proof (cases "needs_clarification d")
  case True
  have st: "fst (handleDateRangeSelect pr a b (Resolved d) ir s) =
      s\<lparr>error := [], ambiguousItems := ambiguous_items d,
         clarifications := initialClarifications (ambiguous_items d),
         uploadPhase := PhClarify, showDateRangePicker := False,
         showClarificationDialog := True, uploading := False\<rparr>"
    and fx: "snd (handleDateRangeSelect pr a b (Resolved d) ir s)
      = [Post (selectDateRange (sessionId s) a b)]"
    using True by (simp_all add: handleDateRangeSelect_clarify)
  have own: "distinct (map index (ambiguous_items d)) \<longrightarrow>
      (\<forall>item \<in> set (ambiguous_items d).
         clarifications (fst (handleDateRangeSelect pr a b (Resolved d) ir s)) (index item)
           = Some (suggested_category item))"
    unfolding st by (simp add: initialClarifications_distinct)
  have rest: "uploadPhase (fst (handleDateRangeSelect pr a b (Resolved d) ir s)) = PhClarify
      \<and> showClarificationDialog (fst (handleDateRangeSelect pr a b (Resolved d) ir s))
      \<and> \<not> showDateRangePicker (fst (handleDateRangeSelect pr a b (Resolved d) ir s))
      \<and> ambiguousItems (fst (handleDateRangeSelect pr a b (Resolved d) ir s)) = ambiguous_items d
      \<and> requests (snd (handleDateRangeSelect pr a b (Resolved d) ir s))
          = [selectDateRange (sessionId s) a b]
      \<and> dom (clarifications (fst (handleDateRangeSelect pr a b (Resolved d) ir s)))
          = index ` set (ambiguous_items d)"
    unfolding st fx by (simp add: requests_def dom_initialClarifications)
  from True own rest show ?thesis by blast
next
  case False
  then show ?thesis
    by (simp add: handleDateRangeSelect_straight_through)
qed

theorem handleDateRangeSelect_branches_witness:
  "needs_clarification \<lparr>needs_clarification = True, ambiguous_items = [walmart_item, uber_item]\<rparr>
   \<and> distinct (map index [walmart_item, uber_item])
   \<and> uploadPhase (fst (handleDateRangeSelect dashboard_props ''2024-01-01'' ''2024-01-31''
        (Resolved \<lparr>needs_clarification = True, ambiguous_items = [walmart_item, uber_item]\<rparr>)
        (Resolved three_imported) choosing_range)) = PhClarify
   \<and> clarifications (fst (handleDateRangeSelect dashboard_props ''2024-01-01'' ''2024-01-31''
        (Resolved \<lparr>needs_clarification = True, ambiguous_items = [walmart_item, uber_item]\<rparr>)
        (Resolved three_imported) choosing_range)) (index walmart_item) = Some ''Groceries''
   \<and> \<not> needs_clarification \<lparr>needs_clarification = False, ambiguous_items = []\<rparr>
   \<and> requests (snd (handleDateRangeSelect dashboard_props ''2024-01-01'' ''2024-01-31''
        (Resolved \<lparr>needs_clarification = False, ambiguous_items = []\<rparr>)
        (Resolved three_imported) choosing_range))
      = [selectDateRange (Some ''s1'') ''2024-01-01'' ''2024-01-31'',
         importTransactions (Some ''s1'') Map.empty]"
proof -
  let ?d = "\<lparr>needs_clarification = True, ambiguous_items = [walmart_item, uber_item]\<rparr>"
  let ?e = "\<lparr>needs_clarification = False, ambiguous_items = []\<rparr>"
  have h1: "needs_clarification ?d" by simp
  have h2: "distinct (map index (ambiguous_items ?d))"
    by (simp add: walmart_item_def uber_item_def)
  have h3: "walmart_item \<in> set (ambiguous_items ?d)" by simp
  have h4: "\<not> needs_clarification ?e" by simp
  have sid: "sessionId choosing_range = Some ''s1''" by (simp add: choosing_range_eq)
  have sc: "suggested_category walmart_item = ''Groceries''" by (simp add: walmart_item_def)
  from handleDateRangeSelect_branches [of ?d dashboard_props "''2024-01-01''" "''2024-01-31''"
      "Resolved three_imported" choosing_range] h1 h2 h3
  have a: "uploadPhase (fst (handleDateRangeSelect dashboard_props ''2024-01-01'' ''2024-01-31''
        (Resolved ?d) (Resolved three_imported) choosing_range)) = PhClarify
     \<and> clarifications (fst (handleDateRangeSelect dashboard_props ''2024-01-01'' ''2024-01-31''
        (Resolved ?d) (Resolved three_imported) choosing_range)) (index walmart_item)
        = Some (suggested_category walmart_item)"
    by blast
  from handleDateRangeSelect_branches [of ?e dashboard_props "''2024-01-01''" "''2024-01-31''"
      "Resolved three_imported" choosing_range] h4
  have b: "requests (snd (handleDateRangeSelect dashboard_props ''2024-01-01'' ''2024-01-31''
        (Resolved ?e) (Resolved three_imported) choosing_range))
      = [selectDateRange (sessionId choosing_range) ''2024-01-01'' ''2024-01-31'',
         importTransactions (sessionId choosing_range) Map.empty]"
    by blast
  from a b h1 h2 h4 sid sc show ?thesis by simp
qed

section \<open>The session protocol: properties\<close>

lemma select_date_range_again:
  assumes "select_date_range norm st sid a b = Inr (r, st')"
  shows "select_date_range norm st' sid a b = Inr (r, st')"
proof -
  from assms obtain se where se: "sessions st sid = Some se" and ord: "\<not> b < a"
    by (auto simp: select_date_range_def split: option.splits if_splits)
  let ?f = "filter (\<lambda>t. a \<le> tx_date t \<and> tx_date t \<le> b) (us_transactions se)"
  let ?se' = "se\<lparr>us_filtered := ?f, us_ambiguous := group_ambiguous norm ?f\<rparr>"
  from assms se ord have st': "st' = st\<lparr>sessions := (sessions st)(sid \<mapsto> ?se')\<rparr>"
    and r: "r = \<lparr>sr_needs_clarification = (group_ambiguous norm ?f \<noteq> []),
                  sr_ambiguous_count = length (group_ambiguous norm ?f),
                  sr_ambiguous_items = group_ambiguous norm ?f\<rparr>"
    by (auto simp: select_date_range_def Let_def)
  have "sessions st' sid = Some ?se'" by (simp add: st')
  moreover have "us_transactions ?se' = us_transactions se" by simp
  ultimately show ?thesis
    using ord by (simp add: select_date_range_def Let_def st' r)
qed

text \<open>
  A selection with other bounds in between does not change the answer either: the
  extracted sequence stays in the session.
\<close>

lemma select_date_range_after_revision:
  assumes "select_date_range norm st sid c d = Inr (r', st1)"
  shows "map_sum id fst (select_date_range norm st1 sid a b)
         = map_sum id fst (select_date_range norm st sid a b)"
proof -
  from assms obtain se where se: "sessions st sid = Some se" and ord: "\<not> d < c"
    by (auto simp: select_date_range_def split: option.splits if_splits)
  let ?f = "filter (\<lambda>t. c \<le> tx_date t \<and> tx_date t \<le> d) (us_transactions se)"
  from assms se ord have st1: "st1 = st\<lparr>sessions := (sessions st)(sid \<mapsto>
      se\<lparr>us_filtered := ?f, us_ambiguous := group_ambiguous norm ?f\<rparr>)\<rparr>"
    by (auto simp: select_date_range_def Let_def)
  show ?thesis
    by (simp add: select_date_range_def Let_def st1 se)
qed

text \<open>The end-to-end example: one ambiguous item, Walmart with two transactions; Uber is not listed.\<close>

lemma selected_backend_eq:
  "selected_backend =
     \<lparr>sessions = [0 \<mapsto> \<lparr>us_transactions = [walmart_50, walmart_30, uber_12], us_file_type = Csv,
         us_created = 0, us_filtered = [walmart_50, walmart_30, uber_12],
         us_ambiguous = [\<lparr>ag_index = 0, ag_key = ''Walmart Groceries'',
                           ag_representative = walmart_50, ag_count = 2\<rparr>]\<rparr>],
      next_id = 1, expenses = [], merchant_rules = Map.empty\<rparr>"
  by (simp add: selected_backend_def uploaded_backend_def create_session_def empty_backend_def
      select_date_range_def group_ambiguous_def add_to_groups_def walmart_50_def
      walmart_30_def uber_12_def Let_def numeral_2_eq_2)

lemma example_import:
  "import_transactions (\<lambda>d. d) selected_backend 0 [0 \<mapsto> ''Groceries''] =
     Inr (\<lparr>cr_imported = 3, cr_total = 3, cr_learned = [(0, True)]\<rparr>,
          \<lparr>sessions = Map.empty, next_id = 1,
           expenses = [\<lparr>ex_date = 5, ex_amount = 5000, ex_description = ''Walmart Groceries'', ex_category = ''Groceries''\<rparr>,
                       \<lparr>ex_date = 10, ex_amount = 3000, ex_description = ''Walmart Groceries'', ex_category = ''Groceries''\<rparr>,
                       \<lparr>ex_date = 15, ex_amount = 1200, ex_description = ''Uber'', ex_category = ''Transport''\<rparr>],
           merchant_rules = [''Walmart Groceries'' \<mapsto> ''Groceries'']\<rparr>)"
  by (simp add: selected_backend_eq import_transactions_def to_expense_def resolved_category_def
      learn_rules_def walmart_50_def walmart_30_def uber_12_def)

lemma store_ok_selected: "store_ok selected_backend"
  by (simp add: selected_backend_eq store_ok_def)

text \<open>
  C9. Selecting a date range a second time with the same bounds, on the session as the
  first call left it, gives the outcome of the first call: the same answer with the same
  list of ambiguous items (or the same error), and the same stored state.
\<close>

theorem select_date_range_idempotent:
  "select_date_range norm (run_op norm (OpSelect sid a b) st) sid a b
     = select_date_range norm st sid a b
   \<and> run_op norm (OpSelect sid a b) (run_op norm (OpSelect sid a b) st)
     = run_op norm (OpSelect sid a b) st"
proof (cases "select_date_range norm st sid a b")
  case (Inl e)
  then show ?thesis by simp
next
  case (Inr p)
  obtain r st' where p: "p = (r, st')" by (cases p)
  from Inr p have "select_date_range norm st' sid a b = Inr (r, st')"
    by (simp add: select_date_range_again)
  with Inr p show ?thesis by simp
qed

text \<open>A session that is gone stays gone: ids come from the counter and are not handed out again.\<close>

lemma session_gone_run_op:
  assumes "store_ok st" and "sid < next_id st" and "sessions st sid = None"
  shows "store_ok (run_op norm op st) \<and> sid < next_id (run_op norm op st)
         \<and> sessions (run_op norm op st) sid = None"
proof (cases op)
  case (OpUpload tag rows now)
  with assms show ?thesis
    by (auto simp: create_session_def store_ok_def split: if_splits) (meson domI less_SucI)
next
  case (OpSelect k a b)
  with assms show ?thesis
    by (auto simp: select_date_range_def store_ok_def Let_def split: option.splits if_splits)
next
  case (OpImport k cl)
  with assms show ?thesis
    by (auto simp: import_transactions_def store_ok_def Let_def split: option.splits if_splits)
qed

lemma session_gone_fold:
  assumes "store_ok st" and "sid < next_id st" and "sessions st sid = None"
  shows "sessions (fold (run_op norm) ops st) sid = None"
  using assms
proof (induction ops arbitrary: st)
  case Nil
  then show ?case by simp
next
  case (Cons op ops)
  from session_gone_run_op [OF Cons.prems, of norm op]
  show ?case by (simp add: Cons.IH)
qed

lemma import_unknown_session:
  "sessions st sid = None \<Longrightarrow> import_transactions norm st sid cl = Inl SessionNotFound"
  by (simp add: import_transactions_def)

text \<open>
  C8. After a successful import for a session id the session is deleted, and every later
  import for that id fails with SessionNotFound, directly afterwards as well as after any
  further uploads, range selections and imports; the failing call leaves the stored
  expenses, like the whole state, as they were.
\<close>

theorem import_at_most_once:
  assumes "store_ok st" and "import_transactions norm st sid cl = Inr (res, st')"
  shows "sessions st' sid = None
         \<and> import_transactions norm st' sid cl' = Inl SessionNotFound
         \<and> import_transactions norm (fold (run_op norm) ops st') sid cl' = Inl SessionNotFound
         \<and> run_op norm (OpImport sid cl') (fold (run_op norm) ops st') = fold (run_op norm) ops st'"
proof -
  from assms(2) obtain se where se: "sessions st sid = Some se"
    by (auto simp: import_transactions_def split: option.splits)
  with assms(1) have lt: "sid < next_id st" by (auto simp: store_ok_def)
  from assms(2) se have st': "sessions st' = (sessions st)(sid := None)" "next_id st' = next_id st"
    by (auto simp: import_transactions_def Let_def)
  have gone: "sessions st' sid = None" by (simp add: st')
  have ok: "store_ok st'"
    using assms(1) by (auto simp: store_ok_def st' split: if_splits)
  have lt': "sid < next_id st'" using lt by (simp add: st')
  have later: "sessions (fold (run_op norm) ops st') sid = None"
    by (rule session_gone_fold [OF ok lt' gone])
  from gone later show ?thesis by (simp add: import_unknown_session)
qed

theorem import_at_most_once_witness:
  "store_ok selected_backend
   \<and> map_sum id fst (import_transactions (\<lambda>d. d) selected_backend 0 [0 \<mapsto> ''Groceries''])
       = Inr \<lparr>cr_imported = 3, cr_total = 3, cr_learned = [(0, True)]\<rparr>
   \<and> import_transactions (\<lambda>d. d)
        (run_op (\<lambda>d. d) (OpImport 0 [0 \<mapsto> ''Groceries'']) selected_backend) 0 [0 \<mapsto> ''Groceries'']
       = Inl SessionNotFound
   \<and> import_transactions (\<lambda>d. d)
        (fold (run_op (\<lambda>d. d)) [OpUpload Pdf [uber_12] 7, OpSelect 0 1 31]
           (run_op (\<lambda>d. d) (OpImport 0 [0 \<mapsto> ''Groceries'']) selected_backend)) 0 Map.empty
       = Inl SessionNotFound"
proof -
  obtain res st' where ex:
    "import_transactions (\<lambda>d. d) selected_backend 0 [0 \<mapsto> ''Groceries''] = Inr (res, st')"
    and res: "res = \<lparr>cr_imported = 3, cr_total = 3, cr_learned = [(0, True)]\<rparr>"
    using example_import by blast
  have run: "run_op (\<lambda>d. d) (OpImport 0 [0 \<mapsto> ''Groceries'']) selected_backend = st'"
    by (simp add: ex)
  from import_at_most_once [OF store_ok_selected ex, of "[0 \<mapsto> ''Groceries'']"]
    import_at_most_once [OF store_ok_selected ex, of Map.empty "[OpUpload Pdf [uber_12] 7, OpSelect 0 1 31]"]
    store_ok_selected
  show ?thesis by (simp add: run ex res)
qed

end
